theory Spec2Isabelle
  imports Complex_Main "HOL-Library.Word"
begin

section \<open>The input stream\<close>

text \<open>
  \<^verbatim>\<open>point.h\<close> and \<^verbatim>\<open>main.cpp\<close> read from a \<^verbatim>\<open>std::istream\<close>. The stream is the
  characters not yet extracted, the number of characters extracted so far (what
  \<^verbatim>\<open>tellg\<close> reports on a stream that has not failed) and the three state flags of
  \<^verbatim>\<open>std::ios_base\<close>. Reading from a file that is already in memory never sets
  \<^verbatim>\<open>badbit\<close>; the flag is kept because \<^verbatim>\<open>good()\<close> tests it.
\<close>

record istream =
  buf :: string
  pos :: nat
  eofbit :: bool
  failbit :: bool
  badbit :: bool

definition good :: "istream \<Rightarrow> bool" where
  "good s = (\<not> eofbit s \<and> \<not> failbit s \<and> \<not> badbit s)"

definition clear :: "istream \<Rightarrow> istream" where
  "clear s = s\<lparr>eofbit := False, failbit := False, badbit := False\<rparr>"

text \<open>A freshly opened stream over the given text.\<close>

definition open_stream :: "string \<Rightarrow> istream" where
  "open_stream cs = \<lparr>buf = cs, pos = 0, eofbit = False, failbit = False, badbit = False\<rparr>"

definition newline :: char where
  "newline = CHR 0x0A"

text \<open>\<^verbatim>\<open>std::isspace\<close> in the "C" locale: space, and the characters 9 to 13.\<close>

definition isspace :: "char \<Rightarrow> bool" where
  "isspace c = (c = CHR 0x20 \<or> c = CHR 0x09 \<or> c = CHR 0x0A \<or> c = CHR 0x0B
     \<or> c = CHR 0x0C \<or> c = CHR 0x0D)"

text \<open>
  The sentry of a formatted input function: on a stream that is not good it sets
  \<^verbatim>\<open>failbit\<close>; otherwise it extracts leading whitespace, and sets \<^verbatim>\<open>eofbit\<close> and
  \<^verbatim>\<open>failbit\<close> when the input ends there. The result is the stream and whether the
  sentry is true.
\<close>

definition sentry :: "istream \<Rightarrow> bool \<times> istream" where
  "sentry s =
     (if \<not> good s then (False, s\<lparr>failbit := True\<rparr>)
      else
        let r = dropWhile isspace (buf s);
            s' = s\<lparr>buf := r, pos := pos s + (length (buf s) - length r)\<rparr>
        in if r = [] then (False, s'\<lparr>eofbit := True, failbit := True\<rparr>)
           else (True, s'))"

text \<open>\<^verbatim>\<open>is >> c\<close> for a \<^verbatim>\<open>char\<close>: the next character that is not whitespace.\<close>

definition extract_char :: "istream \<Rightarrow> char option \<times> istream" where
  "extract_char s =
     (case sentry s of
        (False, s') \<Rightarrow> (None, s')
      | (True, s') \<Rightarrow>
          (case buf s' of
             [] \<Rightarrow> (None, s'\<lparr>eofbit := True, failbit := True\<rparr>)
           | c # r \<Rightarrow> (Some c, s'\<lparr>buf := r, pos := Suc (pos s')\<rparr>)))"

text \<open>
  \<^verbatim>\<open>is >> temp\<close> for an arithmetic \<^verbatim>\<open>T\<close>. After the sentry, the \<^verbatim>\<open>std::num_get\<close>
  facet of \<^verbatim>\<open>T\<close> takes the longest prefix that can belong to a literal and converts
  it: \<open>nget\<close> gives the value, if the conversion succeeds, and the characters left.
  \<^verbatim>\<open>eofbit\<close> is set when the facet stopped because the input ended, \<^verbatim>\<open>failbit\<close>
  when there is no value.
\<close>

type_synonym 'a num_get = "string \<Rightarrow> 'a option \<times> string"

definition extract_num :: "'a num_get \<Rightarrow> istream \<Rightarrow> 'a option \<times> istream" where
  "extract_num nget s =
     (case sentry s of
        (False, s') \<Rightarrow> (None, s')
      | (True, s') \<Rightarrow>
          (case nget (buf s') of
             (v, r) \<Rightarrow>
               (v, s'\<lparr>buf := r, pos := pos s' + (length (buf s') - length r),
                      eofbit := (r = []), failbit := (v = None)\<rparr>)))"

text \<open>
  \<^verbatim>\<open>infile.get()\<close>: the next character, whitespace or not; at the end of the input,
  or on a stream that is not good, \<^verbatim>\<open>EOF\<close> (here \<open>None\<close>).
\<close>

definition istream_get :: "istream \<Rightarrow> char option \<times> istream" where
  "istream_get s =
     (if \<not> good s then (None, s\<lparr>failbit := True\<rparr>)
      else case buf s of
             [] \<Rightarrow> (None, s\<lparr>eofbit := True, failbit := True\<rparr>)
           | c # r \<Rightarrow> (Some c, s\<lparr>buf := r, pos := Suc (pos s)\<rparr>))"

section \<open>Reading and writing an \<^verbatim>\<open>int\<close>\<close>

type_synonym int32 = "32 word"

definition isdigit :: "char \<Rightarrow> bool" where
  "isdigit c = (c \<in> set ''0123456789'')"

definition digit_val :: "char \<Rightarrow> nat" where
  "digit_val c = of_char c - of_char CHR ''0''"

definition dec_val :: "string \<Rightarrow> nat" where
  "dec_val ds = foldl (\<lambda>a c. 10 * a + digit_val c) 0 ds"

text \<open>
  \<^verbatim>\<open>std::num_get\<close> for \<^verbatim>\<open>int\<close> with the default (decimal) base: an optional sign and
  the digits after it are taken. Without a digit there is no value; a value outside
  \<^verbatim>\<open>int\<close> is a failure as well.
\<close>

definition num_get_int :: "int32 num_get" where
  "num_get_int cs =
     (let (neg, r1) =
            (case cs of
               [] \<Rightarrow> (False, [])
             | c # r \<Rightarrow> if c = CHR ''-'' then (True, r)
                        else if c = CHR ''+'' then (False, r) else (False, cs));
          ds = takeWhile isdigit r1;
          r2 = dropWhile isdigit r1;
          v = (if neg then - int (dec_val ds) else int (dec_val ds))
      in if ds = [] then (None, r2)
         else if v < - (2 ^ 31) \<or> 2 ^ 31 \<le> v then (None, r2)
         else (Some (word_of_int v), r2))"

definition digit_char :: "nat \<Rightarrow> char" where
  "digit_char d = ''0123456789'' ! d"

function digits :: "nat \<Rightarrow> string" where
  "digits n = (if n < 10 then [digit_char n]
               else digits (n div 10) @ [digit_char (n mod 10)])"
  by pat_completeness auto
termination
  by (relation "measure id") auto

declare digits.simps [simp del]

text \<open>\<^verbatim>\<open>os << c\<close> for an \<^verbatim>\<open>int\<close>: decimal, with a minus sign when negative.\<close>

definition num_put_int :: "int32 \<Rightarrow> string" where
  "num_put_int w = (if sint w < 0 then CHR ''-'' # digits (nat (- sint w))
                    else digits (nat (sint w)))"

section \<open>Reading and writing a \<^verbatim>\<open>double\<close>\<close>

text \<open>
  A \<^verbatim>\<open>double\<close> is its 64 bits (IEEE 754 binary64): the sign, eleven bits of biased
  exponent, 52 bits of fraction. Only its text, written by \<^verbatim>\<open>os << c\<close> and read by
  \<^verbatim>\<open>is >> temp\<close>, is modelled; its arithmetic is not.
\<close>

type_synonym double = "64 word"

definition sign_bit :: "double \<Rightarrow> bool" where
  "sign_bit w = (2 ^ 63 \<le> unat w)"

definition biased_exponent :: "double \<Rightarrow> nat" where
  "biased_exponent w = unat w div 2 ^ 52 mod 2 ^ 11"

definition fraction_bits :: "double \<Rightarrow> nat" where
  "fraction_bits w = unat w mod 2 ^ 52"

text \<open>The magnitude of a finite \<^verbatim>\<open>double\<close>, as a numerator and a denominator.\<close>

definition double_ratio :: "double \<Rightarrow> nat \<times> nat" where
  "double_ratio w =
     (let E = max (biased_exponent w) 1;
          m = (if biased_exponent w = 0 then fraction_bits w else 2 ^ 52 + fraction_bits w)
      in if 1075 \<le> E then (m * 2 ^ (E - 1075), 1) else (m, 2 ^ (1075 - E)))"

text \<open>The number of digits of \<open>n\<close> in base \<open>b\<close>; none for 0.\<close>

function count_digits :: "nat \<Rightarrow> nat \<Rightarrow> nat" where
  "count_digits b n = (if n = 0 \<or> b < 2 then 0 else Suc (count_digits b (n div b)))"
  by pat_completeness auto
termination
  by (relation "measure snd") auto

declare count_digits.simps [simp del]

text \<open>The floor of the logarithm of \<open>a / b\<close>, for positive \<open>a\<close> and \<open>b\<close>.\<close>

definition floor_log :: "nat \<Rightarrow> nat \<Rightarrow> nat \<Rightarrow> int" where
  "floor_log base a b =
     (if b \<le> a then int (count_digits base (a div b)) - 1
      else - int (count_digits base ((b + a - 1) div a - 1)))"

text \<open>\<open>a / b\<close> rounded to the nearest integer, a tie to the even one.\<close>

definition div_round_even :: "nat \<Rightarrow> nat \<Rightarrow> nat" where
  "div_round_even a b =
     (let q = a div b; r = a mod b
      in if 2 * r < b then q else if b < 2 * r then q + 1 else if even q then q else q + 1)"

text \<open>\<open>a / b\<close> times \<open>base\<close> to the power \<open>e\<close>, rounded.\<close>

definition round_scaled :: "nat \<Rightarrow> nat \<Rightarrow> nat \<Rightarrow> int \<Rightarrow> nat" where
  "round_scaled a b base e =
     (if 0 \<le> e then div_round_even (a * base ^ nat e) b
      else div_round_even a (b * base ^ nat (- e)))"

definition encode :: "bool \<Rightarrow> nat \<Rightarrow> nat \<Rightarrow> double" where
  "encode neg E f = of_nat ((if neg then 2 ^ 63 else 0) + E * 2 ^ 52 + f)"

text \<open>
  The \<^verbatim>\<open>double\<close> nearest to \<open>a / b\<close> with the given sign, as \<^verbatim>\<open>strtod\<close> finds it: 53
  significant bits, fewer below the smallest normal number, and no value when the result
  would be infinite.
\<close>

definition round_double :: "bool \<Rightarrow> nat \<Rightarrow> nat \<Rightarrow> double option" where
  "round_double neg a b =
     (if a = 0 then Some (encode neg 0 0)
      else
        let e0 = max (floor_log 2 a b) (- 1022);
            m0 = round_scaled a b 2 (52 - e0);
            m = (if m0 = 2 ^ 53 then 2 ^ 52 else m0);
            e = (if m0 = 2 ^ 53 then e0 + 1 else e0)
        in if 1023 < e then None
           else if m < 2 ^ 52 then Some (encode neg 0 m)
           else Some (encode neg (nat (e + 1023)) (m - 2 ^ 52)))"

text \<open>
  \<^verbatim>\<open>os << c\<close> for a \<^verbatim>\<open>double\<close> with the stream's defaults, the conversion \<^verbatim>\<open>%g\<close> with
  precision 6: six significant digits, in fixed notation when the decimal exponent is
  from -4 to 5 and in scientific notation otherwise, without trailing zeros.
\<close>

definition strip_zeros :: "string \<Rightarrow> string" where
  "strip_zeros ds = rev (dropWhile (\<lambda>c. c = CHR ''0'') (rev ds))"

definition fraction :: "string \<Rightarrow> string" where
  "fraction ds = (if strip_zeros ds = [] then [] else CHR ''.'' # strip_zeros ds)"

definition num_put_double :: "double \<Rightarrow> string" where
  "num_put_double w =
     (if sign_bit w then ''-'' else []) @
     (if biased_exponent w = 2047 then (if fraction_bits w = 0 then ''inf'' else ''nan'')
      else if fst (double_ratio w) = 0 then ''0''
      else
        let (a, b) = double_ratio w;
            X0 = floor_log 10 a b;
            n0 = round_scaled a b 10 (5 - X0);
            n = (if n0 = 1000000 then 100000 else n0);
            X = (if n0 = 1000000 then X0 + 1 else X0);
            ds = digits n
        in if X < - 4 \<or> 6 \<le> X then
             hd ds # fraction (tl ds) @ CHR ''e'' # (if X < 0 then CHR ''-'' else CHR ''+'')
               # (if \<bar>X\<bar> < 10 then ''0'' else []) @ digits (nat \<bar>X\<bar>)
           else if X < 0 then
             ''0.'' @ replicate (nat (- X - 1)) CHR ''0'' @ strip_zeros ds
           else take (nat X + 1) ds @ fraction (drop (nat X + 1) ds))"

text \<open>
  \<^verbatim>\<open>std::num_get\<close> for \<^verbatim>\<open>double\<close>: an optional sign, digits with at most one decimal
  point, and, after at least one digit, an exponent. There is no value without a digit
  in the mantissa or in a started exponent, nor when the value is too large.
\<close>

definition take_sign :: "string \<Rightarrow> bool \<times> string" where
  "take_sign cs =
     (case cs of
        [] \<Rightarrow> (False, [])
      | c # r \<Rightarrow> if c = CHR ''-'' then (True, r)
                 else if c = CHR ''+'' then (False, r) else (False, cs))"

definition num_get_double :: "double num_get" where
  "num_get_double cs =
     (let (neg, r1) = take_sign cs;
          ip = takeWhile isdigit r1;
          r2 = dropWhile isdigit r1;
          (fp, r3) = (case r2 of
                        [] \<Rightarrow> ([], r2)
                      | c # r \<Rightarrow> if c = CHR ''.'' then (takeWhile isdigit r, dropWhile isdigit r)
                                 else ([], r2))
      in if ip = [] \<and> fp = [] then (None, r3)
         else
           let (ex, r4) =
                 (case r3 of
                    [] \<Rightarrow> (Some 0, r3)
                  | c # r \<Rightarrow>
                      if c = CHR ''e'' \<or> c = CHR ''E'' then
                        (let (eneg, r') = take_sign r;
                             ed = takeWhile isdigit r'
                         in (if ed = [] then None
                             else Some (if eneg then - int (dec_val ed) else int (dec_val ed)),
                             dropWhile isdigit r'))
                      else (Some 0, r3))
           in case ex of
                None \<Rightarrow> (None, r4)
              | Some E \<Rightarrow>
                  (let M = dec_val (ip @ fp); E' = E - int (length fp)
                   in (if 0 \<le> E' then round_double neg (M * 10 ^ nat E') 1
                       else round_double neg M (10 ^ nat (- E')),
                       r4)))"

section \<open>\<^verbatim>\<open>Point<T,SIZE>\<close>\<close>

text \<open>
  A point is its array \<^verbatim>\<open>components_\<close>, a list of length \<^verbatim>\<open>SIZE\<close>. The exceptions of
  the class carry their description.
\<close>

datatype error = EmptyStreamError string | InvalidSymbolError string

fun what :: "error \<Rightarrow> string" where
  "what (EmptyStreamError s) = s"
| "what (InvalidSymbolError s) = s"

text \<open>The default constructor: every component is zero.\<close>

definition Point :: "nat \<Rightarrow> 'a::zero list" where
  "Point SIZE = replicate SIZE 0"

text \<open>
  The loop of \<^verbatim>\<open>fromStream\<close> over the components, from index \<open>i\<close>. The result is the
  exception thrown, if any, the array and the stream. On a stream that is good after
  \<^verbatim>\<open>is >> temp\<close> there is a value in \<^verbatim>\<open>temp\<close>; the branch without one is not
  reached.
\<close>

function read_components ::
  "'a num_get \<Rightarrow> nat \<Rightarrow> nat \<Rightarrow> 'a list \<Rightarrow> istream \<Rightarrow> error option \<times> 'a list \<times> istream" where
  "read_components nget SIZE i comps s =
     (if i < SIZE then
        (case extract_num nget s of
           (temp, s') \<Rightarrow>
             if \<not> good s' then
               (Some (InvalidSymbolError ''unable to read value''), comps, clear s')
             else
               (case temp of
                  None \<Rightarrow> (Some (InvalidSymbolError ''unable to read value''), comps, clear s')
                | Some v \<Rightarrow> read_components nget SIZE (Suc i) (comps[i := v]) s'))
      else (None, comps, s))"
  by pat_completeness auto
termination
  by (relation "measure (\<lambda>(nget, SIZE, i, comps, s). SIZE - i)") auto

declare read_components.simps [simp del]

definition fromStream ::
  "'a num_get \<Rightarrow> nat \<Rightarrow> 'a list \<Rightarrow> istream \<Rightarrow> error option \<times> 'a list \<times> istream" where
  "fromStream nget SIZE comps s =
     (case extract_char s of
        (parenthesis, s1) \<Rightarrow>
          if \<not> good s1 then (Some (EmptyStreamError ''empty stream''), comps, clear s1)
          else if parenthesis \<noteq> Some CHR ''('' then
            (Some (InvalidSymbolError ''invalid symbol''), comps, s1)
          else
            (case read_components nget SIZE 0 comps s1 of
               (Some e, comps', s2) \<Rightarrow> (Some e, comps', s2)
             | (None, comps', s2) \<Rightarrow>
                 (case extract_char s2 of
                    (parenthesis', s3) \<Rightarrow>
                      if \<not> good s3 then
                        (Some (EmptyStreamError ''empty stream''), comps', clear s3)
                      else if parenthesis' \<noteq> Some CHR '')'' then
                        (Some (InvalidSymbolError ''invalid symbol''), comps', s3)
                      else (None, comps', s3))))"

text \<open>
  For the statement that a failed parse leaves a prefix of new values in the array: the
  values that \<open>n\<close> successive \<^verbatim>\<open>is >> temp\<close> deliver, up to the first one after which
  the stream is not good.
\<close>

fun read_values :: "'a num_get \<Rightarrow> nat \<Rightarrow> istream \<Rightarrow> 'a list" where
  "read_values nget 0 s = []"
| "read_values nget (Suc n) s =
     (case extract_num nget s of
        (Some v, s') \<Rightarrow> if good s' then v # read_values nget n s' else []
      | (None, s') \<Rightarrow> [])"

definition toStream :: "('a \<Rightarrow> string) \<Rightarrow> 'a list \<Rightarrow> string" where
  "toStream put comps = ''( '' @ concat (map (\<lambda>c. put c @ '' '') comps) @ '')''"

text \<open>
  \<^verbatim>\<open>distance\<close> for \<^verbatim>\<open>T = int\<close>. The accumulator \<^verbatim>\<open>sum_of_squares\<close> is an \<^verbatim>\<open>int\<close>:
  each round subtracts two \<^verbatim>\<open>int\<close>s, squares the difference as a \<^verbatim>\<open>double\<close>
  (\<^verbatim>\<open>std::pow\<close>), adds the accumulator to it and converts the sum back to \<^verbatim>\<open>int\<close>.
  The subtraction and the conversion have undefined behaviour when their result is
  not an \<^verbatim>\<open>int\<close>; the model then gives \<open>None\<close>. Where the conversion is defined every
  \<^verbatim>\<open>double\<close> involved is an integer below \<open>2 ^ 32\<close>, hence exact.
\<close>

definition in_int :: "int \<Rightarrow> bool" where
  "in_int v = (- (2 ^ 31) \<le> v \<and> v < 2 ^ 31)"

fun sum_of_squares :: "int \<Rightarrow> int32 list \<Rightarrow> int32 list \<Rightarrow> int option" where
  "sum_of_squares acc (a # as) (b # bs) =
     (let d = sint a - sint b
      in if \<not> in_int d then None
         else let t = acc + d ^ 2
              in if \<not> in_int t then None else sum_of_squares t as bs)"
| "sum_of_squares acc _ _ = Some acc"

text \<open>
  \<^verbatim>\<open>std::sqrt\<close> of the accumulator: the \<^verbatim>\<open>double\<close> returned is the square root,
  correctly rounded; the model keeps the real number.
\<close>

definition distance :: "int32 list \<Rightarrow> int32 list \<Rightarrow> real option" where
  "distance p q = map_option (\<lambda>t. sqrt (real_of_int t)) (sum_of_squares 0 p q)"

text \<open>The magnitude of a point is its distance from the zero point, \<^verbatim>\<open>distance( Point{} )\<close>.\<close>

definition magnitude :: "int32 list \<Rightarrow> real option" where
  "magnitude p = distance p (Point (length p))"

text \<open>\<^verbatim>\<open>operator>\<close>: \<^verbatim>\<open>distance( Point{} ) > p.distance( Point{} )\<close>.\<close>

definition operator_gt :: "int32 list \<Rightarrow> int32 list \<Rightarrow> bool option" where
  "operator_gt p q =
     (case (distance p (Point (length p)), distance q (Point (length q))) of
        (Some a, Some b) \<Rightarrow> Some (a > b)
      | _ \<Rightarrow> None)"






section \<open>\<^verbatim>\<open>print_max\<close> for \<^verbatim>\<open>T = int\<close>\<close>

text \<open>
  One report on \<^verbatim>\<open>cerr\<close>: what went wrong, the description of the exception and the
  position \<^verbatim>\<open>tellg\<close> gives; the source line and the file name, which do not depend on
  the input, are left out. \<^verbatim>\<open>print_max\<close> either returns after a failed first read,
  or prints the furthest point; \<open>Undefined\<close> stands for a comparison whose behaviour is
  undefined.
\<close>

datatype report = Report string string nat

datatype outcome = NoResult | Furthest "int32 list" | Undefined

text \<open>\<^verbatim>\<open>while (infile.get() != '\n');\<close> A loop that does not end has no value.\<close>

partial_function (option) discard_line :: "istream \<Rightarrow> istream option" where
  "discard_line s =
     (case istream_get s of
        (c, s') \<Rightarrow> if c \<noteq> Some newline then discard_line s' else Some s')"

text \<open>
  The \<^verbatim>\<open>try\<close> block of the loop with its handlers: \<open>None\<close> when it does not end,
  otherwise \<open>Some None\<close> for the \<^verbatim>\<open>break\<close> and \<open>Some (Some _)\<close> when control goes on
  to the comparison, with \<open>p\<close>, the stream and \<^verbatim>\<open>cerr\<close> as they are then.
\<close>

definition try_read ::
  "nat \<Rightarrow> int32 list \<Rightarrow> istream \<Rightarrow> report list
     \<Rightarrow> (int32 list \<times> istream \<times> report list) option option" where
  "try_read SIZE p infile cerr =
     (case fromStream num_get_int SIZE p infile of
        (None, p', s) \<Rightarrow> Some (Some (p', s, cerr))
      | (Some (EmptyStreamError m), p', s) \<Rightarrow> Some None
      | (Some (InvalidSymbolError m), p', s) \<Rightarrow>
          map_option
            (\<lambda>s'. Some (p', s', cerr @ [Report ''ignoring invalid element'' m (pos s)]))
            (discard_line s))"

partial_function (option) scan_loop ::
  "nat \<Rightarrow> int32 list \<Rightarrow> int32 list \<Rightarrow> istream \<Rightarrow> report list
     \<Rightarrow> (outcome \<times> report list) option" where
  "scan_loop SIZE p pmax infile cerr =
     Option.bind (try_read SIZE p infile cerr)
       (\<lambda>r. case r of
          None \<Rightarrow> Some (Furthest pmax, cerr)
        | Some (p', s, cerr') \<Rightarrow>
            (case operator_gt p' pmax of
               None \<Rightarrow> Some (Undefined, cerr')
             | Some b \<Rightarrow> scan_loop SIZE p' (if b then p' else pmax) s cerr'))"

definition print_max :: "nat \<Rightarrow> istream \<Rightarrow> (outcome \<times> report list) option" where
  "print_max SIZE infile =
     (case fromStream num_get_int SIZE (Point SIZE) infile of
        (Some e, pmax, s) \<Rightarrow>
          Some (NoResult, [Report ''unable to read first element'' (what e) (pos s)])
      | (None, pmax, s) \<Rightarrow> scan_loop SIZE (Point SIZE) pmax s [])"

section \<open>Evaluation on concrete input\<close>

lemmas stream_eval =
  open_stream_def good_def clear_def isspace_def newline_def sentry_def extract_char_def
  extract_num_def istream_get_def

lemmas int_eval =
  num_get_int_def isdigit_def dec_val_def digit_val_def

lemmas point_eval =
  fromStream_def read_components.simps Point_def

lemmas double_eval =
  num_put_double_def num_get_double_def take_sign_def round_double_def div_round_even_def
  round_scaled_def encode_def floor_log_def count_digits.simps strip_zeros_def fraction_def
  digits.simps digit_char_def double_ratio_def sign_bit_def biased_exponent_def
  fraction_bits_def Let_def


section \<open>The state of the stream after a failed parse\<close>

lemma good_clear: "good (clear s)"
  by (simp add: good_def clear_def)

lemma read_components_throw:
  "read_components nget SIZE i comps s = (Some e, comps', s')
   \<Longrightarrow> good s' \<and> e = InvalidSymbolError ''unable to read value''"
proof (induction nget SIZE i comps s rule: read_components.induct)
  case (1 nget SIZE i comps s)
  show ?case
  proof (cases "i < SIZE")
    case False
    with "1.prems" show ?thesis by (simp add: read_components.simps)
  next
    case True
    obtain temp s1 where ex: "extract_num nget s = (temp, s1)" by fastforce
    show ?thesis
    proof (cases "good s1 \<and> temp \<noteq> None")
      case False
      with True ex "1.prems" show ?thesis
        by (auto simp: read_components.simps [of nget SIZE i] good_clear
            split: option.splits if_splits)
    next
      case gv: True
      then obtain v where v: "temp = Some v" by auto
      from gv v True ex "1.prems"
      have "read_components nget SIZE (Suc i) (comps[i := v]) s1 = (Some e, comps', s')"
        by (simp add: read_components.simps [of nget SIZE i])
      with "1.IH" [OF True ex [symmetric] _ v] gv show ?thesis by simp
    qed
  qed
qed

text \<open>
  C10: whatever exception \<^verbatim>\<open>fromStream\<close> throws, for every component type, the stream
  it leaves behind is good: each \<^verbatim>\<open>throw\<close> comes either after \<^verbatim>\<open>is.clear()\<close> or after
  a test that the stream is good.
\<close>

theorem fromStream_throw_leaves_stream_good:
  "fromStream nget SIZE comps s = (Some e, comps', s') \<Longrightarrow> good s'"
  by (auto simp: fromStream_def good_clear split: prod.splits if_splits option.splits
      dest: read_components_throw)

theorem fromStream_throw_leaves_stream_good_witness:
  "fromStream num_get_int 2 [0, 0] (open_stream ''( 1 x )'') =
     (Some (InvalidSymbolError ''unable to read value''), [1, 0],
      \<lparr>buf = ''x )'', pos = 4, eofbit = False, failbit = False, badbit = False\<rparr>)
   \<and> good \<lparr>buf = ''x )'', pos = 4, eofbit = False, failbit = False, badbit = False\<rparr>"
proof -
  have h: "fromStream num_get_int 2 [0, 0] (open_stream ''( 1 x )'') =
     (Some (InvalidSymbolError ''unable to read value''), [1, 0],
      \<lparr>buf = ''x )'', pos = 4, eofbit = False, failbit = False, badbit = False\<rparr>)"
    by (simp add: point_eval stream_eval int_eval)
  from fromStream_throw_leaves_stream_good [OF h] h show ?thesis by simp
qed

section \<open>Which exception is thrown\<close>

lemma dropWhile_all: "list_all P xs \<Longrightarrow> dropWhile P xs = []"
  by (induction xs) auto

text \<open>
  C8: on a good stream that holds only the opening marker and whitespace after it, such
  as \<open>''( ''\<close>, a point with at least one component fails to parse with
  \<^verbatim>\<open>InvalidSymbolError\<close> and the message "unable to read value", not with
  \<^verbatim>\<open>EmptyStreamError\<close>, for every component type.
\<close>

theorem fromStream_open_then_whitespace:
  assumes "good s" and "buf s = CHR ''('' # ws" and "list_all isspace ws" and "0 < SIZE"
  shows "fst (fromStream nget SIZE comps s) = Some (InvalidSymbolError ''unable to read value'')"
proof -
  define s1 where "s1 = s\<lparr>buf := ws, pos := Suc (pos s)\<rparr>"
  have c: "extract_char s = (Some CHR ''('', s1)"
    using assms(1,2) by (simp add: extract_char_def sentry_def isspace_def s1_def)
  have g1: "good s1"
    using assms(1) by (simp add: good_def s1_def)
  have "\<not> good (snd (extract_num nget s1))"
    using g1 assms(3) by (simp add: extract_num_def sentry_def dropWhile_all s1_def good_def)
  then have "fst (read_components nget SIZE 0 comps s1)
      = Some (InvalidSymbolError ''unable to read value'')"
    using assms(4) by (auto simp: read_components.simps [of nget SIZE 0] split: prod.splits)
  with c g1 show ?thesis
    by (auto simp: fromStream_def split: prod.splits option.splits)
qed

theorem fromStream_open_then_whitespace_witness:
  "fst (fromStream num_get_int 1 [0] (open_stream ''( '')) =
     Some (InvalidSymbolError ''unable to read value'')"
  using fromStream_open_then_whitespace [of "open_stream ''( ''" "'' ''" 1 num_get_int "[0]"]
  by (simp add: stream_eval)

lemma extract_char_good:
  "good s \<Longrightarrow> good (snd (extract_char s)) = (\<not> list_all isspace (buf s))"
  by (auto simp: extract_char_def sentry_def good_def list_all_iff Let_def
      split: list.splits)

lemma read_components_return_good:
  "read_components nget SIZE i comps s = (None, comps', s') \<Longrightarrow> good s \<Longrightarrow> good s'"
proof (induction nget SIZE i comps s rule: read_components.induct)
  case (1 nget SIZE i comps s)
  show ?case
  proof (cases "i < SIZE")
    case False
    with "1.prems" show ?thesis by (simp add: read_components.simps)
  next
    case True
    obtain temp s1 where ex: "extract_num nget s = (temp, s1)" by fastforce
    show ?thesis
    proof (cases "good s1 \<and> temp \<noteq> None")
      case False
      with True ex "1.prems" show ?thesis
        by (auto simp: read_components.simps [of nget SIZE i] split: option.splits if_splits)
    next
      case gv: True
      then obtain v where v: "temp = Some v" by auto
      from gv v True ex "1.prems"
      have "read_components nget SIZE (Suc i) (comps[i := v]) s1 = (None, comps', s')"
        by (simp add: read_components.simps [of nget SIZE i])
      with "1.IH" [OF True ex [symmetric] _ v] gv show ?thesis by simp
    qed
  qed
qed

text \<open>
  C4, as the code has it: on a stream that is good, \<^verbatim>\<open>fromStream\<close> throws
  \<^verbatim>\<open>EmptyStreamError\<close> exactly when only whitespace is left where a marker is read:
  at the opening marker, or at the closing marker after the opening marker and all
  \<^verbatim>\<open>SIZE\<close> components have been read. Every other failure, the end of the input
  while a component is read among them, is an \<^verbatim>\<open>InvalidSymbolError\<close>.
\<close>

theorem fromStream_EmptyStream_iff:
  assumes "good s"
  shows "fst (fromStream nget SIZE comps s) = Some (EmptyStreamError m) \<longleftrightarrow>
     m = ''empty stream'' \<and>
     (list_all isspace (buf s)
      \<or> fst (extract_char s) = Some CHR ''('' \<and>
        (case read_components nget SIZE 0 comps (snd (extract_char s)) of
           (None, comps', s2) \<Rightarrow> list_all isspace (buf s2)
         | (Some e, comps', s2) \<Rightarrow> False))"
proof -
  obtain c s1 where c: "extract_char s = (c, s1)" by fastforce
  have g1: "good s1 = (\<not> list_all isspace (buf s))"
    using extract_char_good [OF assms] c by simp
  show ?thesis
  proof (cases "good s1 \<and> c = Some CHR ''(''")
    case False
    with c g1 show ?thesis
      by (auto simp: fromStream_def)
  next
    case True
    obtain r c2 s2 where r: "read_components nget SIZE 0 comps s1 = (r, c2, s2)"
      by (metis prod_cases3)
    show ?thesis
    proof (cases r)
      case (Some e)
      with r read_components_throw [of nget SIZE 0 comps s1 e c2 s2] True c g1
      show ?thesis by (auto simp: fromStream_def)
    next
      case None
      with r True have g2: "good s2"
        using read_components_return_good by blast
      obtain c' s3 where c': "extract_char s2 = (c', s3)" by fastforce
      have "good s3 = (\<not> list_all isspace (buf s2))"
        using extract_char_good [OF g2] c' by simp
      with None r True c g1 c' show ?thesis
        by (auto simp: fromStream_def)
    qed
  qed
qed

theorem fromStream_EmptyStream_iff_witness:
  "good (open_stream ''( 3 4  '') \<and> \<not> list_all isspace ''( 3 4  '' \<and>
   fst (fromStream num_get_int 2 [0, 0] (open_stream ''( 3 4  '')) =
     Some (EmptyStreamError ''empty stream'')"
proof -
  have g: "good (open_stream ''( 3 4  '')"
    by (simp add: stream_eval)
  have "fst (extract_char (open_stream ''( 3 4  '')) = Some CHR ''('' \<and>
        (case read_components num_get_int 2 0 [0, 0] (snd (extract_char (open_stream ''( 3 4  ''))) of
           (None, comps', s2) \<Rightarrow> list_all isspace (buf s2)
         | (Some e, comps', s2) \<Rightarrow> False)"
    by (simp add: point_eval stream_eval int_eval)
  with fromStream_EmptyStream_iff [OF g, of num_get_int 2 "[0, 0]" "''empty stream''"] g
  show ?thesis by (simp add: isspace_def)
qed

text \<open>
  The input ends at the closing marker, after the opening marker and both components
  were read: the exception is \<^verbatim>\<open>EmptyStreamError\<close>.
\<close>

theorem fromStream_eof_at_closing_marker:
  "fromStream num_get_int 2 [0, 0] (open_stream ''( 1 2 '') =
     (Some (EmptyStreamError ''empty stream''), [1, 2],
      \<lparr>buf = [], pos = 6, eofbit = False, failbit = False, badbit = False\<rparr>)"
  by (simp add: point_eval stream_eval int_eval)

section \<open>The array after a failed parse\<close>

lemma read_components_prefix:
  "read_components nget SIZE i comps s = (Some e, comps', s') \<Longrightarrow> length comps = SIZE
   \<Longrightarrow> length (read_values nget (SIZE - i) s) < SIZE - i \<and>
       comps' = take i comps @ read_values nget (SIZE - i) s
                @ drop (i + length (read_values nget (SIZE - i) s)) comps"
proof (induction nget SIZE i comps s rule: read_components.induct)
  case (1 nget SIZE i comps s)
  show ?case
  proof (cases "i < SIZE")
    case False
    with "1.prems" show ?thesis by (simp add: read_components.simps)
  next
    case True
    then obtain k where k: "SIZE - i = Suc k" "SIZE - Suc i = k"
      by (metis Suc_diff_Suc)
    obtain temp s1 where ex: "extract_num nget s = (temp, s1)" by fastforce
    show ?thesis
    proof (cases "good s1 \<and> temp \<noteq> None")
      case False
      with True ex "1.prems" k show ?thesis
        by (auto simp: read_components.simps [of nget SIZE i] split: option.splits if_splits)
    next
      case gv: True
      then obtain v where v: "temp = Some v" by auto
      from gv v True ex "1.prems"
      have "read_components nget SIZE (Suc i) (comps[i := v]) s1 = (Some e, comps', s')"
        by (simp add: read_components.simps [of nget SIZE i])
      from "1.IH" [OF True ex [symmetric] _ v this] gv "1.prems"(2)
      have ih: "length (read_values nget k s1) < k"
        "comps' = take (Suc i) (comps[i := v]) @ read_values nget k s1
                @ drop (Suc i + length (read_values nget k s1)) (comps[i := v])"
        by (simp_all add: k)
      have rv: "read_values nget (Suc k) s = v # read_values nget k s1"
        using ex v gv by simp
      have tk: "take (Suc i) (comps[i := v]) = take i comps @ [v]"
        using True "1.prems"(2) by (simp add: take_Suc_conv_app_nth)
      show ?thesis
        using ih rv tk by (simp add: k)
    qed
  qed
qed

text \<open>
  C9: \<^verbatim>\<open>fromStream\<close> is not atomic. When it throws "unable to read value", the array
  holds the values read before the failing component in its first places and its old
  values from the failing index on; when it throws at the opening marker the array is
  unchanged.
\<close>

theorem fromStream_not_atomic:
  assumes "length comps = SIZE"
    and "fromStream nget SIZE comps s = (Some e, comps', s')"
  shows "(e = InvalidSymbolError ''unable to read value'' \<longrightarrow>
            length (read_values nget SIZE (snd (extract_char s))) < SIZE \<and>
            comps' = read_values nget SIZE (snd (extract_char s))
                     @ drop (length (read_values nget SIZE (snd (extract_char s)))) comps)
       \<and> ((\<not> good (snd (extract_char s)) \<or> fst (extract_char s) \<noteq> Some CHR ''('')
            \<longrightarrow> comps' = comps)"
proof -
  obtain c s1 where c: "extract_char s = (c, s1)" by fastforce
  show ?thesis
  proof (cases "good s1 \<and> c = Some CHR ''(''")
    case False
    with c assms(2) show ?thesis
      by (auto simp: fromStream_def split: if_splits)
  next
    case True
    obtain r c2 s2 where r: "read_components nget SIZE 0 comps s1 = (r, c2, s2)"
      by (metis prod_cases3)
    show ?thesis
    proof (cases r)
      case None
      with True c r assms(2) show ?thesis
        by (auto simp: fromStream_def split: if_splits prod.splits)
    next
      case (Some e')
      with True c r assms(2) have "e' = e" "c2 = comps'"
        by (auto simp: fromStream_def split: if_splits prod.splits)
      with r Some read_components_prefix [of nget SIZE 0 comps s1 e comps' s2] assms(1) True c
      show ?thesis by simp
    qed
  qed
qed

theorem fromStream_not_atomic_witness:
  "fromStream num_get_int 3 [1, 2, 3] (open_stream ''( 7 8 x )'') =
     (Some (InvalidSymbolError ''unable to read value''), [7, 8, 3],
      \<lparr>buf = ''x )'', pos = 6, eofbit = False, failbit = False, badbit = False\<rparr>)
   \<and> read_values num_get_int 3 (snd (extract_char (open_stream ''( 7 8 x )''))) = [7, 8]"
proof -
  have h: "fromStream num_get_int 3 [1, 2, 3] (open_stream ''( 7 8 x )'') =
     (Some (InvalidSymbolError ''unable to read value''), [7, 8, 3],
      \<lparr>buf = ''x )'', pos = 6, eofbit = False, failbit = False, badbit = False\<rparr>)"
    by (simp add: point_eval stream_eval int_eval)
  have l: "length [1, 2, 3 :: int32] = 3" by simp
  have rv: "read_values num_get_int 3 (snd (extract_char (open_stream ''( 7 8 x )''))) = [7, 8]"
    by (simp add: numeral_3_eq_3 stream_eval int_eval)
  from fromStream_not_atomic [OF l h] h rv show ?thesis by simp
qed

section \<open>Writing a point and reading it back\<close>

lemma digit_char_props:
  "d < 10 \<Longrightarrow> isdigit (digit_char d) \<and> digit_val (digit_char d) = d \<and> \<not> isspace (digit_char d)
     \<and> digit_char d \<noteq> CHR ''-'' \<and> digit_char d \<noteq> CHR ''+''"
proof -
  assume "d < 10"
  then have "d = 0 \<or> d = 1 \<or> d = 2 \<or> d = 3 \<or> d = 4 \<or> d = 5 \<or> d = 6 \<or> d = 7 \<or> d = 8 \<or> d = 9"
    by arith
  then show ?thesis
    by (elim disjE) (simp_all add: digit_char_def isdigit_def digit_val_def isspace_def)
qed

lemma dec_val_snoc: "dec_val (ds @ [c]) = 10 * dec_val ds + digit_val c"
  by (simp add: dec_val_def)

lemma digits_props:
  "digits n \<noteq> [] \<and> list_all isdigit (digits n) \<and> dec_val (digits n) = n"
proof (induction n rule: digits.induct)
  case (1 n)
  show ?case
  proof (cases "n < 10")
    case True
    then show ?thesis
      using digit_char_props [of n] by (simp add: digits.simps [of n] dec_val_def)
  next
    case False
    with "1.IH" digit_char_props [of "n mod 10"] show ?thesis
      by (simp add: digits.simps [of n] dec_val_snoc)
  qed
qed

lemma digits_hd: "\<exists>c cs. digits n = c # cs \<and> isdigit c"
  using digits_props [of n] by (cases "digits n") auto

lemma isdigit_not_sign: "isdigit c \<Longrightarrow> c \<noteq> CHR ''-'' \<and> c \<noteq> CHR ''+'' \<and> \<not> isspace c"
  by (auto simp: isdigit_def isspace_def)

lemma takeWhile_digits:
  "\<not> isdigit c \<Longrightarrow> takeWhile isdigit (digits n @ c # rest) = digits n
     \<and> dropWhile isdigit (digits n @ c # rest) = c # rest"
  using digits_props [of n] by (simp add: takeWhile_append2 dropWhile_append2 list_all_iff)

lemma num_get_int_digits:
  assumes "\<not> isdigit c" and "n < 2 ^ 31"
  shows "num_get_int (digits n @ c # rest) = (Some (word_of_int (int n)), c # rest)"
proof -
  obtain d ds where d: "digits n = d # ds" "isdigit d"
    using digits_hd by blast
  have tk: "takeWhile isdigit (d # ds @ c # rest) = digits n"
       "dropWhile isdigit (d # ds @ c # rest) = c # rest"
    using takeWhile_digits [OF assms(1), of n rest] d by simp_all
  show ?thesis
    using d isdigit_not_sign [OF d(2)] tk digits_props [of n] assms(2)
    by (simp add: num_get_int_def Let_def del: takeWhile.simps dropWhile.simps)
qed

lemma num_get_int_minus_digits:
  assumes "\<not> isdigit c" and "n \<le> 2 ^ 31"
  shows "num_get_int (CHR ''-'' # digits n @ c # rest) = (Some (word_of_int (- int n)), c # rest)"
  using takeWhile_digits [OF assms(1), of n rest] digits_props [of n] assms(2)
  by (simp add: num_get_int_def Let_def)

lemma num_get_put_int:
  assumes "\<not> isdigit c"
  shows "num_get_int (num_put_int w @ c # rest) = (Some w, c # rest)"
proof (cases "sint w < 0")
  case True
  have "- sint w \<le> 2 ^ 31"
    using sint_ge [of w] by simp
  then have "nat (- sint w) \<le> 2 ^ 31" by simp
  from num_get_int_minus_digits [OF assms this, of rest] True show ?thesis
    by (simp add: num_put_int_def)
next
  case False
  have "sint w < 2 ^ 31"
    using sint_lt [of w] by simp
  then have "nat (sint w) < 2 ^ 31" by simp
  from num_get_int_digits [OF assms this, of rest] False show ?thesis
    by (simp add: num_put_int_def)
qed

lemma num_put_int_hd: "\<exists>c cs. num_put_int w = c # cs \<and> \<not> isspace c"
  using digits_hd [of "nat (sint w)"] isdigit_not_sign
  by (auto simp: num_put_int_def isspace_def)

lemma toStream_shape:
  "toStream put p = CHR ''('' # concat (map (\<lambda>c. CHR '' '' # put c) p) @ '' )''"
  by (induction p) (simp_all add: toStream_def)

lemma extract_num_put:
  assumes "good s" and "buf s = CHR '' '' # put w @ CHR '' '' # rest"
    and "put w \<noteq> []" and "\<not> isspace (hd (put w))"
    and "nget (put w @ CHR '' '' # rest) = (Some w, CHR '' '' # rest)"
  shows "extract_num nget s =
     (Some w, s\<lparr>buf := CHR '' '' # rest, pos := pos s + Suc (length (put w))\<rparr>)"
proof -
  obtain c cs where c: "put w = c # cs" "\<not> isspace c"
    using assms(3,4) by (cases "put w") auto
  have ng: "nget (c # cs @ CHR '' '' # rest) = (Some w, CHR '' '' # rest)"
    using assms(5) c by simp
  have gd: "\<not> eofbit s" "\<not> failbit s" "\<not> badbit s"
    using assms(1) by (simp_all add: good_def)
  show ?thesis
    using assms(1,2) c ng gd
    by (simp add: extract_num_def sentry_def isspace_def)
qed

lemma read_components_put:
  "good s \<Longrightarrow> buf s = concat (map (\<lambda>c. CHR '' '' # put c) vs) @ CHR '' '' # rest
   \<Longrightarrow> length comps = SIZE \<Longrightarrow> i + length vs = SIZE
   \<Longrightarrow> \<forall>c \<in> set vs. put c \<noteq> [] \<and> \<not> isspace (hd (put c)) \<and>
         (\<forall>r. nget (put c @ CHR '' '' # r) = (Some c, CHR '' '' # r))
   \<Longrightarrow> read_components nget SIZE i comps s =
        (None, take i comps @ vs,
         s\<lparr>buf := CHR '' '' # rest,
           pos := pos s + length (concat (map (\<lambda>c. CHR '' '' # put c) vs))\<rparr>)"
proof (induction vs arbitrary: i comps s)
  case Nil
  have "s\<lparr>buf := CHR '' '' # rest\<rparr> = s"
    using Nil.prems(2) by (cases s) simp
  with Nil show ?case by (simp add: read_components.simps [of _ SIZE SIZE])
next
  case (Cons v vs)
  let ?s1 = "s\<lparr>buf := concat (map (\<lambda>c. CHR '' '' # put c) vs) @ CHR '' '' # rest,
               pos := pos s + Suc (length (put v))\<rparr>"
  define r0 where "r0 = tl (concat (map (\<lambda>c. CHR '' '' # put c) vs) @ CHR '' '' # rest)"
  have tl: "CHR '' '' # r0 = concat (map (\<lambda>c. CHR '' '' # put c) vs) @ CHR '' '' # rest"
    unfolding r0_def by (cases vs) simp_all
  have b: "buf s = CHR '' '' # put v @ CHR '' '' # r0"
    using Cons.prems(2) tl by simp
  have hv: "put v \<noteq> []" "\<not> isspace (hd (put v))"
    "nget (put v @ CHR '' '' # r0) = (Some v, CHR '' '' # r0)"
    using Cons.prems(5) by simp_all
  have "extract_num nget s =
      (Some v, s\<lparr>buf := CHR '' '' # r0, pos := pos s + Suc (length (put v))\<rparr>)"
    using Cons.prems(1) b hv by (rule extract_num_put)
  then have ex: "extract_num nget s = (Some v, ?s1)"
    by (simp only: tl)
  have g1: "good ?s1"
    using Cons.prems(1) by (simp add: good_def)
  have lt: "i < SIZE" using Cons.prems(4) by simp
  have ih: "read_components nget SIZE (Suc i) (comps[i := v]) ?s1 =
        (None, take (Suc i) (comps[i := v]) @ vs,
         ?s1\<lparr>buf := CHR '' '' # rest,
           pos := pos ?s1 + length (concat (map (\<lambda>c. CHR '' '' # put c) vs))\<rparr>)"
    using Cons.IH [of ?s1 "comps[i := v]" "Suc i"] g1 Cons.prems(3,4,5) by simp
  have tk: "take (Suc i) (comps[i := v]) = take i comps @ [v]"
    using lt Cons.prems(3) by (simp add: take_Suc_conv_app_nth)
  show ?case
    using lt ex g1 ih tk by (simp add: read_components.simps [of _ SIZE i])
qed

lemma parse_serialize_components:
  assumes "length p = SIZE" and "length old = SIZE"
    and "\<forall>c \<in> set p. put c \<noteq> [] \<and> \<not> isspace (hd (put c)) \<and>
           (\<forall>r. nget (put c @ CHR '' '' # r) = (Some c, CHR '' '' # r))"
  shows "fromStream nget SIZE old (open_stream (toStream put p)) =
     (None, p, \<lparr>buf = [], pos = length (toStream put p),
                eofbit = False, failbit = False, badbit = False\<rparr>)"
proof -
  let ?body = "concat (map (\<lambda>c. CHR '' '' # put c) p)"
  let ?s1 = "\<lparr>buf = ?body @ '' )'', pos = 1, eofbit = False, failbit = False, badbit = False\<rparr>"
  let ?s2 = "\<lparr>buf = '' )'', pos = Suc (length ?body), eofbit = False, failbit = False,
              badbit = False\<rparr>"
  have c1: "extract_char (open_stream (toStream put p)) = (Some CHR ''('', ?s1)"
    by (simp add: toStream_shape stream_eval)
  have g1: "good ?s1" by (simp add: good_def)
  have rc: "read_components nget SIZE 0 old ?s1 = (None, p, ?s2)"
    using read_components_put [of ?s1 put p "'')''" old SIZE 0 nget] g1 assms by simp
  have c2: "extract_char ?s2 =
      (Some CHR '')'', \<lparr>buf = [], pos = Suc (Suc (Suc (length ?body))), eofbit = False,
         failbit = False, badbit = False\<rparr>)"
    by (simp add: stream_eval)
  show ?thesis
    using c1 g1 rc c2 by (simp add: fromStream_def toStream_shape good_def)
qed

lemma int_reads_back:
  "num_put_int w \<noteq> [] \<and> \<not> isspace (hd (num_put_int w)) \<and>
   (\<forall>r. num_get_int (num_put_int w @ CHR '' '' # r) = (Some w, CHR '' '' # r))"
proof -
  obtain c cs where "num_put_int w = c # cs" "\<not> isspace c"
    using num_put_int_hd by blast
  moreover have "\<forall>r. num_get_int (num_put_int w @ CHR '' '' # r) = (Some w, CHR '' '' # r)"
    using num_get_put_int [of "CHR '' ''" w] by (simp add: isdigit_def)
  ultimately show ?thesis by simp
qed

text \<open>
  C5, as the code has it: the text \<^verbatim>\<open>toStream\<close> writes for a point of \<^verbatim>\<open>SIZE\<close>
  components parses, into any point of the same size, as that point, with the whole
  text consumed and the stream good, provided that for each component \<open>c\<close> the text
  \<^verbatim>\<open>os << c\<close> writes does not begin with whitespace and \<^verbatim>\<open>is >> temp\<close> reads it back
  as \<open>c\<close> when a space follows it. Every \<^verbatim>\<open>int\<close> is read back so: for \<^verbatim>\<open>T = int\<close> the
  text of every point parses as that point.
\<close>

theorem parse_serialize:
  "(length p = SIZE \<and> length old = SIZE \<and>
    (\<forall>c \<in> set p. put c \<noteq> [] \<and> \<not> isspace (hd (put c)) \<and>
       (\<forall>r. nget (put c @ CHR '' '' # r) = (Some c, CHR '' '' # r)))
    \<longrightarrow> fromStream nget SIZE old (open_stream (toStream put p)) =
          (None, p, \<lparr>buf = [], pos = length (toStream put p),
                     eofbit = False, failbit = False, badbit = False\<rparr>))
   \<and> (length q = N \<and> length old' = N
    \<longrightarrow> fromStream num_get_int N old' (open_stream (toStream num_put_int q)) =
          (None, q, \<lparr>buf = [], pos = length (toStream num_put_int q),
                     eofbit = False, failbit = False, badbit = False\<rparr>))"
proof (intro conjI impI)
  assume "length p = SIZE \<and> length old = SIZE \<and>
    (\<forall>c \<in> set p. put c \<noteq> [] \<and> \<not> isspace (hd (put c)) \<and>
       (\<forall>r. nget (put c @ CHR '' '' # r) = (Some c, CHR '' '' # r)))"
  then show "fromStream nget SIZE old (open_stream (toStream put p)) =
          (None, p, \<lparr>buf = [], pos = length (toStream put p),
                     eofbit = False, failbit = False, badbit = False\<rparr>)"
    using parse_serialize_components [of p SIZE old put nget] by blast
next
  assume "length q = N \<and> length old' = N"
  then show "fromStream num_get_int N old' (open_stream (toStream num_put_int q)) =
          (None, q, \<lparr>buf = [], pos = length (toStream num_put_int q),
                     eofbit = False, failbit = False, badbit = False\<rparr>)"
    using parse_serialize_components [of q N old' num_put_int num_get_int] int_reads_back
    by blast
qed

theorem parse_serialize_witness:
  "toStream num_put_double [0x3FB999999999999A] = ''( 0.1 )''
   \<and> fromStream num_get_double 1 [0] (open_stream ''( 0.1 )'') =
       (None, [0x3FB999999999999A],
        \<lparr>buf = [], pos = 7, eofbit = False, failbit = False, badbit = False\<rparr>)
   \<and> toStream num_put_int [-5, 9] = ''( -5 9 )''
   \<and> fromStream num_get_int 2 [0, 0] (open_stream ''( -5 9 )'') =
       (None, [-5, 9], \<lparr>buf = [], pos = 8, eofbit = False, failbit = False, badbit = False\<rparr>)"
proof -
  have td: "toStream num_put_double [0x3FB999999999999A] = ''( 0.1 )''"
    by (simp add: toStream_def double_eval)
  have pd: "num_put_double 0x3FB999999999999A = ''0.1''"
    by (simp add: double_eval)
  have gd: "\<forall>r. num_get_double (''0.1'' @ CHR '' '' # r) = (Some 0x3FB999999999999A, CHR '' '' # r)"
    by (simp add: double_eval int_eval)
  have hd: "length [0x3FB999999999999A :: double] = 1 \<and> length [0 :: double] = 1 \<and>
    (\<forall>c \<in> set [0x3FB999999999999A]. num_put_double c \<noteq> [] \<and>
       \<not> isspace (hd (num_put_double c)) \<and>
       (\<forall>r. num_get_double (num_put_double c @ CHR '' '' # r) = (Some c, CHR '' '' # r)))"
    using pd gd by (simp add: isspace_def)
  have ti: "toStream num_put_int [-5, 9] = ''( -5 9 )''"
    by (simp add: toStream_def num_put_int_def digits.simps digit_char_def)
  have hi: "length [-5, 9 :: int32] = 2 \<and> length [0, 0 :: int32] = 2" by simp
  from parse_serialize [of "[0x3FB999999999999A]" 1 "[0]" num_put_double num_get_double
      "[-5, 9]" 2 "[0, 0]"] hd hi td ti
  show ?thesis by simp
qed

text \<open>
  For \<^verbatim>\<open>T = double\<close> the text does not determine the point. The point read from
  \<^verbatim>\<open>( 1234567 )\<close> is written as \<^verbatim>\<open>( 1.23457e+06 )\<close>, and that text is read as the point
  \<^verbatim>\<open>( 1234570 )\<close>.
\<close>

theorem parse_serialize_double_differs:
  "fromStream num_get_double 1 [0] (open_stream ''( 1234567 )'') =
     (None, [0x4132D68700000000],
      \<lparr>buf = [], pos = 11, eofbit = False, failbit = False, badbit = False\<rparr>)
   \<and> toStream num_put_double [0x4132D68700000000] = ''( 1.23457e+06 )''
   \<and> fromStream num_get_double 1 [0]
        (open_stream (toStream num_put_double [0x4132D68700000000])) =
     (None, [0x4132D68A00000000],
      \<lparr>buf = [], pos = 15, eofbit = False, failbit = False, badbit = False\<rparr>)
   \<and> [0x4132D68A00000000] \<noteq> [0x4132D68700000000 :: double]"
proof -
  have t: "toStream num_put_double [0x4132D68700000000] = ''( 1.23457e+06 )''"
    by (simp add: toStream_def double_eval)
  have a: "fromStream num_get_double 1 [0] (open_stream ''( 1234567 )'') =
     (None, [0x4132D68700000000],
      \<lparr>buf = [], pos = 11, eofbit = False, failbit = False, badbit = False\<rparr>)"
    by (simp add: point_eval stream_eval double_eval int_eval)
  have b: "fromStream num_get_double 1 [0] (open_stream ''( 1.23457e+06 )'') =
     (None, [0x4132D68A00000000],
      \<lparr>buf = [], pos = 15, eofbit = False, failbit = False, badbit = False\<rparr>)"
    by (simp add: point_eval stream_eval double_eval int_eval)
  show ?thesis
    using t a b by simp
qed

section \<open>Distance and order\<close>

lemma Point_simps:
  "Point 0 = []" "Point (Suc n) = 0 # Point n" "Point (numeral k) = 0 # Point (pred_numeral k)"
  by (simp_all add: Point_def numeral_eq_Suc)

lemma sum_of_squares_nonneg:
  "sum_of_squares acc p q = Some t \<Longrightarrow> 0 \<le> acc \<Longrightarrow> 0 \<le> t"
  by (induction acc p q rule: sum_of_squares.induct) (auto simp: Let_def split: if_splits)

lemma operator_gt_sum:
  "operator_gt p q =
     (case (sum_of_squares 0 p (Point (length p)), sum_of_squares 0 q (Point (length q))) of
        (Some a, Some b) \<Rightarrow> Some (b < a)
      | _ \<Rightarrow> None)"
  by (auto simp: operator_gt_def distance_def split: option.splits)

lemma sum_of_squares_value:
  "sum_of_squares acc p q = Some t \<Longrightarrow> length p = length q
   \<Longrightarrow> t = acc + (\<Sum>(a, b) \<leftarrow> zip p q. (sint a - sint b) ^ 2)"
  by (induction acc p q rule: sum_of_squares.induct) (auto simp: Let_def split: if_splits)

lemma distance_value:
  "distance p q = Some d \<Longrightarrow> length p = length q
   \<Longrightarrow> d = sqrt (real_of_int (\<Sum>(a, b) \<leftarrow> zip p q. (sint a - sint b) ^ 2))"
  using sum_of_squares_value [of 0 p q] by (auto simp: distance_def)

lemma magnitude_nonneg: "magnitude p = Some m \<Longrightarrow> 0 \<le> m"
  using sum_of_squares_nonneg [of 0 p "Point (length p)"]
  by (auto simp: magnitude_def distance_def)

lemma sum_of_squares_zero: "sum_of_squares 0 (Point n) (Point n) = Some 0"
  by (induction n) (simp_all add: Point_simps in_int_def)

lemma magnitude_zero: "magnitude (Point n) = Some 0"
  by (simp add: magnitude_def distance_def Point_def sum_of_squares_zero [unfolded Point_def])

text \<open>
  C3: the accumulator of \<^verbatim>\<open>distance\<close> is a \<^verbatim>\<open>T\<close>, not a real number. For the \<^verbatim>\<open>int\<close>
  points \<^verbatim>\<open>( 50000 )\<close> and \<^verbatim>\<open>( 0 )\<close> the square 2500000000 is converted to an \<^verbatim>\<open>int\<close> that
  cannot hold it: the behaviour is undefined, and no distance 50000 is computed.
\<close>

theorem distance_overflow: "distance [50000] [0] = None"
  by (simp add: distance_def in_int_def)

text \<open>
  C6: for the \<^verbatim>\<open>int\<close> point \<^verbatim>\<open>( -46341 )\<close> the sum of squares 2147488281 does not fit the
  \<^verbatim>\<open>int\<close> accumulator, so the distance from the zero point is undefined instead of a
  non-negative number.
\<close>

theorem magnitude_overflow: "magnitude [-46341] = None"
  by (simp add: magnitude_def distance_def Point_def in_int_def)




section \<open>The scan\<close>

lemma discard_line_returns:
  assumes "discard_line s = Some y"
  shows "good s \<and> newline \<in> set (buf s)"
proof (rule discard_line.raw_induct
    [where P = "\<lambda>s y. good s \<and> newline \<in> set (buf s)", OF _ assms])
  fix discard :: "istream \<Rightarrow> istream option" and s y
  assume IH: "\<And>x y. discard x = Some y \<Longrightarrow> good x \<and> newline \<in> set (buf x)"
    and step: "(case istream_get s of
                  (c, s') \<Rightarrow> if c \<noteq> Some newline then discard s' else Some s') = Some y"
  obtain c s' where g: "istream_get s = (c, s')" by fastforce
  show "good s \<and> newline \<in> set (buf s)"
  proof (cases "c = Some newline")
    case True
    with g show ?thesis
      by (auto simp: istream_get_def split: if_splits list.splits)
  next
    case False
    with g step have "discard s' = Some y" by simp
    then have "good s' \<and> newline \<in> set (buf s')" by (rule IH)
    with g show ?thesis
      by (auto simp: istream_get_def good_def split: if_splits list.splits)
  qed
qed

lemma discard_line_diverges:
  "newline \<notin> set (buf s) \<Longrightarrow> discard_line s = None"
  using discard_line_returns [of s] by (cases "discard_line s") auto

lemma discard_line_terminates:
  "good s \<Longrightarrow> newline \<in> set (buf s) \<Longrightarrow> \<exists>s'. discard_line s = Some s'"
proof (induction "buf s" arbitrary: s)
  case Nil
  then show ?case by simp
next
  case (Cons c r)
  have b: "buf s = c # r"
    using Cons.hyps(2) by simp
  have g: "istream_get s = (Some c, s\<lparr>buf := r, pos := Suc (pos s)\<rparr>)"
    using b Cons.prems(1) by (simp add: istream_get_def)
  show ?case
  proof (cases "c = newline")
    case True
    with g show ?thesis by (simp add: discard_line.simps [of s])
  next
    case False
    with Cons.prems(2) b have "newline \<in> set r"
      by auto
    with Cons.hyps(1) [of "s\<lparr>buf := r, pos := Suc (pos s)\<rparr>"] Cons.prems(1)
    have "\<exists>s'. discard_line (s\<lparr>buf := r, pos := Suc (pos s)\<rparr>) = Some s'"
      by (simp add: good_def)
    with g False show ?thesis by (simp add: discard_line.simps [of s])
  qed
qed

text \<open>
  C1: after an \<^verbatim>\<open>InvalidSymbolError\<close> the loop goes on to the comparison with the
  point that the failed parse has half filled. In a file of the points \<^verbatim>\<open>( 1 1 )\<close> and, malformed, \<^verbatim>\<open>( 100 x )\<close>
  the failed parse leaves \<^verbatim>\<open>( 100 0 )\<close> in \<^verbatim>\<open>p\<close>, which replaces the maximum and is
  printed as the furthest point.
\<close>

theorem print_max_partial_point:
  "print_max 2 (open_stream (''( 1 1 )'' @ [newline] @ ''( 100 x )'' @ [newline])) =
     Some (Furthest [100, 0],
           [Report ''ignoring invalid element'' ''unable to read value'' 14])"
  by (simp add: print_max_def scan_loop.simps try_read_def discard_line.simps operator_gt_sum
      in_int_def Point_simps fromStream_def read_components.simps stream_eval int_eval)

text \<open>
  C2: when the malformed record is the last line and has no newline after it, the loop
  that discards the rest of the line reads \<^verbatim>\<open>EOF\<close> for ever, and \<^verbatim>\<open>print_max\<close> does not
  return.
\<close>

theorem print_max_never_returns:
  "print_max 1 (open_stream (''( 1 )'' @ [newline] @ ''( x'')) = None"
  by (simp add: print_max_def scan_loop.simps try_read_def discard_line_diverges
      Point_simps fromStream_def read_components.simps stream_eval int_eval)


end
